theory Spec2Isabelle
  imports Main "HOL-Library.Multiset"
begin

section \<open>JavaScript values and strings\<close>

text \<open>
  The transform phase (\<^verbatim>\<open>etl/transform.js\<close>) works on spreadsheet cells. A cell is a
  JavaScript value: \<^verbatim>\<open>null\<close>/\<^verbatim>\<open>undefined\<close>, a string, a number, or some other object.
  Strings are modelled as lists of ASCII code units; a character outside ASCII is not
  interpreted by the case mappings and the white-space test below, so a statement that
  depends on them is made for ASCII text (\<open>ascii\<close>).
  \<open>JObj n\<close> stands for the object that every object literal inherits from
  \<^verbatim>\<open>Object.prototype\<close> under the property name \<open>n\<close> (\<^verbatim>\<open>constructor\<close>, \<^verbatim>\<open>toString\<close>, ...).
\<close>

datatype jsval = JNull | JStr string | JNum int | JObj string

datatype exn = TypeError

definition ascii :: "string \<Rightarrow> bool" where
  "ascii s = list_all (\<lambda>c. of_char c < (128::nat)) s"

text \<open>Truthiness: \<^verbatim>\<open>null\<close>, \<^verbatim>\<open>undefined\<close>, \<^verbatim>\<open>''\<close> and \<^verbatim>\<open>0\<close> are falsy.\<close>

fun truthy :: "jsval \<Rightarrow> bool" where
  "truthy JNull = False"
| "truthy (JStr s) = (s \<noteq> [])"
| "truthy (JNum n) = (n \<noteq> 0)"
| "truthy (JObj n) = True"

text \<open>\<^verbatim>\<open>a || b\<close>\<close>

definition js_or :: "jsval \<Rightarrow> jsval \<Rightarrow> jsval" where
  "js_or a b = (if truthy a then a else b)"

text \<open>Character classes by code unit: \<^verbatim>\<open>0\<close>..\<^verbatim>\<open>9\<close> are 48..57, \<^verbatim>\<open>A\<close>..\<^verbatim>\<open>Z\<close> are 65..90,
  \<^verbatim>\<open>a\<close>..\<^verbatim>\<open>z\<close> are 97..122.\<close>

definition is_digit :: "char \<Rightarrow> bool" where
  "is_digit c = (48 \<le> (of_char c :: nat) \<and> (of_char c :: nat) \<le> 57)"

definition is_upper :: "char \<Rightarrow> bool" where
  "is_upper c = (65 \<le> (of_char c :: nat) \<and> (of_char c :: nat) \<le> 90)"

definition is_lower :: "char \<Rightarrow> bool" where
  "is_lower c = (97 \<le> (of_char c :: nat) \<and> (of_char c :: nat) \<le> 122)"

definition is_alpha :: "char \<Rightarrow> bool" where
  "is_alpha c = (is_upper c \<or> is_lower c)"

text \<open>The class \<^verbatim>\<open>[a-zA-Z0-9]\<close>.\<close>

definition is_alnum :: "char \<Rightarrow> bool" where
  "is_alnum c = (is_alpha c \<or> is_digit c)"

text \<open>The class \<^verbatim>\<open>\s\<close>, and what \<^verbatim>\<open>trim\<close> strips, within ASCII: TAB, LF, VT, FF, CR, SP.\<close>

definition is_space :: "char \<Rightarrow> bool" where
  "is_space c = (of_char c \<in> {9, 10, 11, 12, 13, 32 :: nat})"

definition toUpperChar :: "char \<Rightarrow> char" where
  "toUpperChar c = (if is_lower c then char_of (of_char c - (32::nat)) else c)"

definition toLowerChar :: "char \<Rightarrow> char" where
  "toLowerChar c = (if is_upper c then char_of (of_char c + (32::nat)) else c)"

definition toUpperCase :: "string \<Rightarrow> string" where
  "toUpperCase s = map toUpperChar s"

definition toLowerCase :: "string \<Rightarrow> string" where
  "toLowerCase s = map toLowerChar s"

definition trim :: "string \<Rightarrow> string" where
  "trim s = rev (dropWhile is_space (rev (dropWhile is_space s)))"

definition startsWith :: "string \<Rightarrow> string \<Rightarrow> bool" where
  "startsWith s p = (take (length p) s = p)"

text \<open>\<^verbatim>\<open>/^\d+$/\<close>\<close>

definition all_digits :: "string \<Rightarrow> bool" where
  "all_digits s = (s \<noteq> [] \<and> list_all is_digit s)"

text \<open>Template strings print a number in decimal.\<close>

fun digit_char :: "nat \<Rightarrow> char" where
  "digit_char n = char_of (48 + n mod 10)"

function show_nat :: "nat \<Rightarrow> string" where
  "show_nat n = (if n < 10 then [digit_char n] else show_nat (n div 10) @ [digit_char n])"
  by pat_completeness auto
termination
  by (relation "measure id") auto

declare show_nat.simps [simp del]

section \<open>The logger and the transformer's state\<close>

text \<open>
  \<^verbatim>\<open>Logger\<close> (\<^verbatim>\<open>etl/logger.js\<close>) appends every message to the log and counts in
  \<^verbatim>\<open>stats\<close> (its counters carry the prefix \<open>stat\<close> here); writing the log to the console
  and to files is outside the model, and the logger is taken not to throw.
  A validation error is the object pushed on \<^verbatim>\<open>this.validationErrors\<close>; its property
  \<^verbatim>\<open>value\<close> is the field \<open>val\<close>. An entry of the array \<^verbatim>\<open>duplicates\<close> has the properties
  \<^verbatim>\<open>row\<close> (the field \<open>dup_row\<close>), \<^verbatim>\<open>duplicateOf\<close> and \<^verbatim>\<open>key\<close>.
\<close>

record verror =
  row :: nat
  field :: string
  val :: jsval
  error :: string

record dup_entry =
  dup_row :: nat
  duplicateOf :: nat
  key :: jsval

datatype level = Info | Warn | Success

datatype payload =
  NoData
| Duplicates "dup_entry list"
| Sample "(nat \<times> verror list) list"

record stats =
  stat_extracted :: nat
  stat_transformed :: nat
  stat_loaded :: nat
  stat_errors :: nat
  stat_warnings :: nat
  stat_skipped :: nat

record logger =
  entries :: "(level \<times> string \<times> payload) list"
  stats :: stats

record transformer =
  logger :: logger
  validationErrors :: "verror list"

definition log_entry :: "level \<Rightarrow> string \<Rightarrow> payload \<Rightarrow> logger \<Rightarrow> logger" where
  "log_entry lv msg d lg = lg\<lparr>entries := entries lg @ [(lv, msg, d)]\<rparr>"

definition logger_info :: "string \<Rightarrow> logger \<Rightarrow> logger" where
  "logger_info msg lg = log_entry Info msg NoData lg"

definition logger_success :: "string \<Rightarrow> logger \<Rightarrow> logger" where
  "logger_success msg lg = log_entry Success msg NoData lg"

text \<open>\<^verbatim>\<open>warn(message, data) { this.log('warn', message, data); this.stats.warnings++; }\<close>\<close>

definition logger_warn :: "string \<Rightarrow> payload \<Rightarrow> logger \<Rightarrow> logger" where
  "logger_warn msg d lg =
     (let lg' = log_entry Warn msg d lg
      in lg'\<lparr>stats := (stats lg')\<lparr>stat_warnings := stat_warnings (stats lg') + 1\<rparr>\<rparr>)"

definition updateStats_skipped :: "logger \<Rightarrow> logger" where
  "updateStats_skipped lg = lg\<lparr>stats := (stats lg)\<lparr>stat_skipped := stat_skipped (stats lg) + 1\<rparr>\<rparr>"

definition updateStats_transformed :: "nat \<Rightarrow> logger \<Rightarrow> logger" where
  "updateStats_transformed n lg =
     lg\<lparr>stats := (stats lg)\<lparr>stat_transformed := stat_transformed (stats lg) + n\<rparr>\<rparr>"

definition info :: "string \<Rightarrow> transformer \<Rightarrow> transformer" where
  "info msg t = t\<lparr>logger := logger_info msg (logger t)\<rparr>"

definition success :: "string \<Rightarrow> transformer \<Rightarrow> transformer" where
  "success msg t = t\<lparr>logger := logger_success msg (logger t)\<rparr>"

definition warn :: "string \<Rightarrow> transformer \<Rightarrow> transformer" where
  "warn msg t = t\<lparr>logger := logger_warn msg NoData (logger t)\<rparr>"

definition warn_data :: "string \<Rightarrow> payload \<Rightarrow> transformer \<Rightarrow> transformer" where
  "warn_data msg d t = t\<lparr>logger := logger_warn msg d (logger t)\<rparr>"

definition push_error :: "nat \<Rightarrow> string \<Rightarrow> jsval \<Rightarrow> string \<Rightarrow> transformer \<Rightarrow> transformer" where
  "push_error r f v e t =
     t\<lparr>validationErrors := validationErrors t @ [\<lparr>row = r, field = f, val = v, error = e\<rparr>]\<rparr>"

text \<open>The warnings logged so far, in order.\<close>

definition warned :: "transformer \<Rightarrow> string list" where
  "warned t = map (\<lambda>(lv, msg, d). msg) (filter (\<lambda>(lv, msg, d). lv = Warn) (entries (logger t)))"

text \<open>A fresh logger and \<^verbatim>\<open>this.validationErrors = []\<close>.\<close>

definition init :: transformer where
  "init = \<lparr>logger = \<lparr>entries = [],
      stats = \<lparr>stat_extracted = 0, stat_transformed = 0, stat_loaded = 0, stat_errors = 0,
        stat_warnings = 0, stat_skipped = 0\<rparr>\<rparr>,
    validationErrors = []\<rparr>"

section \<open>Field normalizers\<close>

text \<open>
  Every normalizer starts with the test \<^verbatim>\<open>!value || value.trim() === ''\<close>.
  On a falsy value it holds; on a string it asks whether only white space is left;
  on any other truthy value \<^verbatim>\<open>value.trim\<close> is not a function and the call throws.
\<close>

datatype guard = Throws | Empty | Text string

fun guard_empty :: "jsval \<Rightarrow> guard" where
  "guard_empty JNull = Empty"
| "guard_empty (JStr s) = (if trim s = [] then Empty else Text s)"
| "guard_empty (JNum n) = (if n = 0 then Empty else Throws)"
| "guard_empty (JObj n) = Throws"

type_synonym 'a result = "exn + ('a \<times> transformer)"

subsection \<open>Identifiers\<close>

text \<open>\<^verbatim>\<open>value.replace(/[^a-zA-Z0-9]/g, '').toUpperCase()\<close>\<close>

definition clean_id :: "string \<Rightarrow> string" where
  "clean_id s = toUpperCase (filter is_alnum s)"

text \<open>\<^verbatim>\<open>/^C\d+$/\<close> and \<^verbatim>\<open>/^ORD\d+$/\<close>\<close>

definition re_customer_id :: "string \<Rightarrow> bool" where
  "re_customer_id s = (startsWith s ''C'' \<and> all_digits (drop 1 s))"

definition re_order_id :: "string \<Rightarrow> bool" where
  "re_order_id s = (startsWith s ''ORD'' \<and> all_digits (drop 3 s))"

definition transformCustomerId :: "jsval \<Rightarrow> nat \<Rightarrow> transformer \<Rightarrow> jsval result" where
  "transformCustomerId v rowIndex t =
     (case guard_empty v of
        Throws \<Rightarrow> Inl TypeError
      | Empty \<Rightarrow>
          Inr (JNull, warn (''Row '' @ show_nat rowIndex @
                 '': Empty customer_id, will need to be generated'') t)
      | Text s \<Rightarrow>
          (let cleaned = clean_id s;
               cleaned = (if \<not> startsWith cleaned ''C'' then ''C'' @ cleaned else cleaned)
           in if \<not> re_customer_id cleaned
              then Inr (JNull, push_error rowIndex ''customer_id'' v
                     ''Invalid format, must be C followed by numbers'' t)
              else Inr (JStr cleaned, t)))"

definition transformOrderId :: "jsval \<Rightarrow> nat \<Rightarrow> transformer \<Rightarrow> jsval result" where
  "transformOrderId v rowIndex t =
     (case guard_empty v of
        Throws \<Rightarrow> Inl TypeError
      | Empty \<Rightarrow>
          Inr (JNull, warn (''Row '' @ show_nat rowIndex @
                 '': Empty order_id, will need to be generated'') t)
      | Text s \<Rightarrow>
          (let cleaned = clean_id s;
               cleaned = (if \<not> startsWith cleaned ''ORD'' then ''ORD'' @ cleaned else cleaned)
           in if \<not> re_order_id cleaned
              then Inr (JNull, push_error rowIndex ''order_id'' v
                     ''Invalid format, must be ORD followed by numbers'' t)
              else Inr (JStr cleaned, t)))"

subsection \<open>Name, e-mail, phone, city\<close>

text \<open>\<^verbatim>\<open>replace(/\s+/g, ' ')\<close>: every run of white space becomes one space.\<close>

function collapse_ws :: "string \<Rightarrow> string" where
  "collapse_ws [] = []"
| "collapse_ws (c # cs) =
     (if is_space c then CHR '' '' # collapse_ws (dropWhile is_space cs)
      else c # collapse_ws cs)"
  by pat_completeness auto
termination
  by (relation "measure length") (auto simp: less_Suc_eq_le length_dropWhile_le)

text \<open>The double quote that the messages put around a raw value.\<close>

definition dq :: string where
  "dq = [char_of (34::nat)]"

definition transformFullName :: "jsval \<Rightarrow> nat \<Rightarrow> transformer \<Rightarrow> jsval result" where
  "transformFullName v rowIndex t =
     (case guard_empty v of
        Throws \<Rightarrow> Inl TypeError
      | Empty \<Rightarrow> Inr (JNull, push_error rowIndex ''full_name'' v ''Name is required'' t)
      | Text s \<Rightarrow>
          (let cleaned = collapse_ws (trim s)
           in Inr (JStr cleaned,
                if all_digits cleaned
                then warn (''Row '' @ show_nat rowIndex @
                       '': Suspicious name (all digits): '' @ dq @ cleaned @ dq) t
                else t)))"

text \<open>
  \<^verbatim>\<open>/^[A-Za-z0-9._%+-]+@[A-Za-z0-9.-]+\.[A-Za-z]{2,}$/\<close>.
  Neither character class contains \<^verbatim>\<open>@\<close>, so the local part is what precedes the first
  \<^verbatim>\<open>@\<close>; the last group contains no dot, so it is what follows the last dot.
\<close>

definition is_local_char :: "char \<Rightarrow> bool" where
  "is_local_char c = (is_alnum c \<or> c \<in> set ''._%+-'')"

definition is_domain_char :: "char \<Rightarrow> bool" where
  "is_domain_char c = (is_alnum c \<or> c \<in> set ''.-'')"

definition emailRegex :: "string \<Rightarrow> bool" where
  "emailRegex s =
     (let local = takeWhile (\<lambda>c. c \<noteq> CHR ''@'') s;
          rest = drop (length local + 1) s;
          tld = rev (takeWhile (\<lambda>c. c \<noteq> CHR ''.'') (rev rest));
          dom = take (length rest - length tld - 1) rest
      in local \<noteq> [] \<and> list_all is_local_char local \<and> length local < length s \<and>
         length tld < length rest \<and> 2 \<le> length tld \<and> list_all is_alpha tld \<and>
         dom \<noteq> [] \<and> list_all is_domain_char dom)"

definition transformEmail :: "jsval \<Rightarrow> nat \<Rightarrow> transformer \<Rightarrow> jsval result" where
  "transformEmail v rowIndex t =
     (case guard_empty v of
        Throws \<Rightarrow> Inl TypeError
      | Empty \<Rightarrow> Inr (JNull, push_error rowIndex ''email'' v ''Email is required'' t)
      | Text s \<Rightarrow>
          (let cleaned = toLowerCase (trim s)
           in if \<not> emailRegex cleaned
              then Inr (JNull, push_error rowIndex ''email'' v ''Invalid email format'' t)
              else Inr (JStr cleaned, t)))"

text \<open>\<^verbatim>\<open>value.replace(/\D/g, '')\<close> keeps the digits.\<close>

definition transformPhone :: "jsval \<Rightarrow> nat \<Rightarrow> transformer \<Rightarrow> jsval result" where
  "transformPhone v rowIndex t =
     (case guard_empty v of
        Throws \<Rightarrow> Inl TypeError
      | Empty \<Rightarrow> Inr (JNull, t)
      | Text s \<Rightarrow>
          (let digits = filter is_digit s
           in if length digits = 7
              then Inr (JStr (take 3 digits @ ''-'' @ drop 3 digits), t)
              else if length digits = 10
              then Inr (JStr digits, t)
              else Inr (JNull, warn (''Row '' @ show_nat rowIndex @
                     '': Invalid phone format: '' @ dq @ s @ dq) t)))"

definition transformCity :: "jsval \<Rightarrow> nat \<Rightarrow> transformer \<Rightarrow> jsval result" where
  "transformCity v rowIndex t =
     (case guard_empty v of
        Throws \<Rightarrow> Inl TypeError
      | Empty \<Rightarrow> Inr (JNull, t)
      | Text s \<Rightarrow> Inr (JStr (trim s), t))"

subsection \<open>Object literals used as lookup tables\<close>

text \<open>
  \<^verbatim>\<open>obj[key]\<close> on an object literal finds the literal's own property, or else what
  \<^verbatim>\<open>Object.prototype\<close> has under that name, or else \<^verbatim>\<open>undefined\<close>.
\<close>

definition object_prototype :: "string list" where
  "object_prototype =
     [''constructor'', ''__defineGetter__'', ''__defineSetter__'', ''hasOwnProperty'',
      ''__lookupGetter__'', ''__lookupSetter__'', ''isPrototypeOf'', ''propertyIsEnumerable'',
      ''toString'', ''valueOf'', ''__proto__'', ''toLocaleString'']"

definition js_get :: "(string \<times> string) list \<Rightarrow> string \<Rightarrow> jsval" where
  "js_get obj k =
     (case map_of obj k of
        Some x \<Rightarrow> JStr x
      | None \<Rightarrow> if k \<in> set object_prototype then JObj k else JNull)"

definition stateMapping :: "(string \<times> string) list" where
  "stateMapping =
     [(''New York'', ''NY''), (''California'', ''CA''), (''Texas'', ''TX''), (''Florida'', ''FL''),
      (''Illinois'', ''IL''), (''Pennsylvania'', ''PA''), (''Ohio'', ''OH''), (''Georgia'', ''GA''),
      (''North Carolina'', ''NC''), (''Michigan'', ''MI''), (''New Jersey'', ''NJ''),
      (''Virginia'', ''VA''), (''Washington'', ''WA''), (''Arizona'', ''AZ''),
      (''Massachusetts'', ''MA''), (''Tennessee'', ''TN''), (''Indiana'', ''IN''),
      (''Missouri'', ''MO''), (''Maryland'', ''MD''), (''Wisconsin'', ''WI'')]"

definition transformStateCode :: "jsval \<Rightarrow> nat \<Rightarrow> transformer \<Rightarrow> jsval result" where
  "transformStateCode v rowIndex t =
     (case guard_empty v of
        Throws \<Rightarrow> Inl TypeError
      | Empty \<Rightarrow> Inr (JNull, t)
      | Text s \<Rightarrow>
          (let cleaned = trim s
           in if length cleaned = 2
              then Inr (JStr (toUpperCase cleaned), t)
              else (let mapped = js_get stateMapping cleaned
                    in if truthy mapped
                       then Inr (mapped, t)
                       else Inr (JNull, warn (''Row '' @ show_nat rowIndex @
                              '': Unknown state: '' @ dq @ s @ dq) t))))"

definition statusMap :: "(string \<times> string) list" where
  "statusMap =
     [(''active'', ''Active''), (''inactive'', ''Inactive''), (''pending'', ''Pending''),
      (''yes'', ''Active''), (''no'', ''Inactive''), (''1'', ''Active''), (''0'', ''Inactive'')]"

definition transformStatus :: "jsval \<Rightarrow> nat \<Rightarrow> transformer \<Rightarrow> jsval result" where
  "transformStatus v rowIndex t =
     (case guard_empty v of
        Throws \<Rightarrow> Inl TypeError
      | Empty \<Rightarrow> Inr (JStr ''Active'', t)
      | Text s \<Rightarrow>
          (let cleaned = trim s;
               mapped = js_get statusMap (toLowerCase cleaned)
           in if truthy mapped
              then Inr (mapped, t)
              else Inr (JStr ''Active'', warn (''Row '' @ show_nat rowIndex @
                     '': Unknown status '' @ dq @ s @ dq @ '', defaulting to Active'') t)))"

subsection \<open>Dates\<close>

text \<open>
  A \<^verbatim>\<open>Date\<close> built from a date-only string is midnight UTC of a calendar day, so it is
  modelled by that day: (year, month, day). The clock, \<^verbatim>\<open>new Date()\<close>, is read as the
  current UTC day \<open>today\<close>, a parameter.
\<close>

type_synonym date = "nat \<times> nat \<times> nat"

text \<open>\<^verbatim>\<open>split(sep)\<close> for a one-character separator.\<close>

fun js_split :: "char \<Rightarrow> string \<Rightarrow> string list" where
  "js_split sep [] = [[]]"
| "js_split sep (c # cs) =
     (if c = sep then [] # js_split sep cs
      else (case js_split sep cs of w # ws \<Rightarrow> (c # w) # ws | [] \<Rightarrow> [[c]]))"

text \<open>\<^verbatim>\<open>\d{lo,hi}\<close> on a whole segment.\<close>

definition digits_n :: "nat \<Rightarrow> nat \<Rightarrow> string \<Rightarrow> bool" where
  "digits_n lo hi s = (lo \<le> length s \<and> length s \<le> hi \<and> list_all is_digit s)"

text \<open>
  The three patterns. A digit is never a separator, so each pattern holds exactly when
  splitting at the separator leaves three segments of the stated lengths.
  \<^verbatim>\<open>/^\d{4}-\d{2}-\d{2}$/\<close>, \<^verbatim>\<open>/^\d{1,2}\/\d{1,2}\/\d{4}$/\<close>, \<^verbatim>\<open>/^\d{1,2}-\d{1,2}-\d{4}$/\<close>
\<close>

definition re_ymd :: "string \<Rightarrow> bool" where
  "re_ymd s = (case js_split CHR ''-'' s of
       [a, b, c] \<Rightarrow> digits_n 4 4 a \<and> digits_n 2 2 b \<and> digits_n 2 2 c
     | _ \<Rightarrow> False)"

definition re_mdy_slash :: "string \<Rightarrow> bool" where
  "re_mdy_slash s = (case js_split CHR ''/'' s of
       [a, b, c] \<Rightarrow> digits_n 1 2 a \<and> digits_n 1 2 b \<and> digits_n 4 4 c
     | _ \<Rightarrow> False)"

definition re_dmy_dash :: "string \<Rightarrow> bool" where
  "re_dmy_dash s = (case js_split CHR ''-'' s of
       [a, b, c] \<Rightarrow> digits_n 1 2 a \<and> digits_n 1 2 b \<and> digits_n 4 4 c
     | _ \<Rightarrow> False)"

definition padStart :: "nat \<Rightarrow> char \<Rightarrow> string \<Rightarrow> string" where
  "padStart n c s = replicate (n - length s) c @ s"

definition digit_val :: "char \<Rightarrow> nat" where
  "digit_val c = of_char c - 48"

definition nat_of_digits :: "string \<Rightarrow> nat" where
  "nat_of_digits s = foldl (\<lambda>a c. 10 * a + digit_val c) 0 s"

definition leap_year :: "nat \<Rightarrow> bool" where
  "leap_year y = (y mod 4 = 0 \<and> (y mod 100 \<noteq> 0 \<or> y mod 400 = 0))"

definition days_in_month :: "nat \<Rightarrow> nat \<Rightarrow> nat" where
  "days_in_month y m =
     (if m = 2 then (if leap_year y then 29 else 28)
      else if m \<in> {4, 6, 9, 11} then 30 else 31)"

text \<open>
  \<^verbatim>\<open>new Date(s)\<close> for \<open>s\<close> of the shape \<^verbatim>\<open>YYYY-MM-DD\<close>, as Node's engine (V8) reads it:
  the month must be 1..12 and the day 1..31, else the date is invalid (\<open>None\<close>, whose
  \<^verbatim>\<open>getTime()\<close> is \<^verbatim>\<open>NaN\<close>); a day beyond the end of its month runs over into the next
  month (\<^verbatim>\<open>2023-02-30\<close> is March 2). The source passes no string of another shape.
\<close>

definition Date_new :: "string \<Rightarrow> date option" where
  "Date_new s =
     (case js_split CHR ''-'' s of
        [ys, ms, ds] \<Rightarrow>
          (let y = nat_of_digits ys; m = nat_of_digits ms; d = nat_of_digits ds
           in if digits_n 4 4 ys \<and> digits_n 2 2 ms \<and> digits_n 2 2 ds \<and>
                 1 \<le> m \<and> m \<le> 12 \<and> 1 \<le> d \<and> d \<le> 31
              then Some (if d \<le> days_in_month y m then (y, m, d)
                         else (y, m + 1, d - days_in_month y m))
              else None)
      | _ \<Rightarrow> None)"

text \<open>\<^verbatim>\<open>date.toISOString().split('T')[0]\<close>, for a year up to 9999.\<close>

definition toISODate :: "date \<Rightarrow> string" where
  "toISODate dt =
     (case dt of (y, m, d) \<Rightarrow>
        padStart 4 CHR ''0'' (show_nat y) @ ''-'' @ padStart 2 CHR ''0'' (show_nat m) @ ''-'' @
        padStart 2 CHR ''0'' (show_nat d))"

text \<open>\<^verbatim>\<open>date > new Date()\<close>: midnight of a day is later than now exactly when the day is
  later than today.\<close>

definition date_after :: "date \<Rightarrow> date \<Rightarrow> bool" where
  "date_after a b =
     (case a of (y, m, d) \<Rightarrow> case b of (y', m', d') \<Rightarrow>
        y' < y \<or> (y' = y \<and> (m' < m \<or> (m' = m \<and> d' < d))))"

text \<open>The format cascade: \<open>None\<close> when no pattern matches, else the \<^verbatim>\<open>Date\<close> built.\<close>

definition parse_date :: "string \<Rightarrow> date option option" where
  "parse_date s =
     (if re_ymd s then Some (Date_new s)
      else if re_mdy_slash s then
        (case js_split CHR ''/'' s of
           [month, day, year] \<Rightarrow>
             Some (Date_new (year @ ''-'' @ padStart 2 CHR ''0'' month @ ''-'' @
                             padStart 2 CHR ''0'' day))
         | _ \<Rightarrow> None)
      else if re_dmy_dash s then
        (case js_split CHR ''-'' s of
           [day, month, year] \<Rightarrow>
             Some (Date_new (year @ ''-'' @ padStart 2 CHR ''0'' month @ ''-'' @
                             padStart 2 CHR ''0'' day))
         | _ \<Rightarrow> None)
      else None)"

definition transformRegisteredAt :: "date \<Rightarrow> jsval \<Rightarrow> nat \<Rightarrow> transformer \<Rightarrow> jsval result" where
  "transformRegisteredAt today v rowIndex t =
     (case guard_empty v of
        Throws \<Rightarrow> Inl TypeError
      | Empty \<Rightarrow> Inr (JStr (toISODate today), t)
      | Text s \<Rightarrow>
          (case parse_date s of
             None \<Rightarrow>
               Inr (JStr (toISODate today), warn (''Row '' @ show_nat rowIndex @
                 '': Invalid date format: '' @ dq @ s @ dq @ '', using current date'') t)
           | Some None \<Rightarrow>
               Inr (JStr (toISODate today), warn (''Row '' @ show_nat rowIndex @
                 '': Invalid date value: '' @ dq @ s @ dq @ '', using current date'') t)
           | Some (Some date) \<Rightarrow>
               Inr (JStr (toISODate date),
                 if date_after date today
                 then warn (''Row '' @ show_nat rowIndex @
                        '': Future registration date: '' @ dq @ s @ dq) t
                 else t)))"


subsection \<open>Products and orders\<close>


text \<open>
  \<^verbatim>\<open>transformUnitPrice\<close> parses a floating-point price and rounds it with \<^verbatim>\<open>toFixed\<close>;
  it is not part of this model.
\<close>






section \<open>Customers\<close>

text \<open>
  A transformed record carries the spreadsheet row it came from in \<^verbatim>\<open>_rowIndex\<close>
  (the field \<open>u_rowIndex\<close>);
  \<^verbatim>\<open>validate\<close> reads nothing else of a record.
\<close>

record indexed =
  u_rowIndex :: nat

record customer = indexed +
  customer_id :: jsval
  full_name :: jsval
  email :: jsval
  phone_number :: jsval
  city :: jsval
  state_code :: jsval
  registered_at :: jsval
  status :: jsval
  email_verified :: bool

text \<open>\<^verbatim>\<open>row[i]\<close>: \<^verbatim>\<open>undefined\<close> past the end of the row.\<close>

definition cell :: "jsval list \<Rightarrow> nat \<Rightarrow> jsval" where
  "cell r i = (if i < length r then r ! i else JNull)"

text \<open>Sequencing two steps; an exception of the first skips the second.\<close>

definition and_then :: "'a result \<Rightarrow> ('a \<Rightarrow> transformer \<Rightarrow> 'b result) \<Rightarrow> 'b result" where
  "and_then m f = (case m of Inl e \<Rightarrow> Inl e | Inr (a, t) \<Rightarrow> f a t)"

text \<open>The body of the \<^verbatim>\<open>forEach\<close>: the object literal with its eight calls, in order.\<close>

definition transformCustomer :: "date \<Rightarrow> jsval list \<Rightarrow> nat \<Rightarrow> transformer \<Rightarrow> customer result" where
  "transformCustomer today r rowIndex t0 =
     and_then (transformCustomerId (cell r 0) rowIndex t0) (\<lambda>cid t1.
     and_then (transformFullName (cell r 1) rowIndex t1) (\<lambda>name t2.
     and_then (transformEmail (cell r 2) rowIndex t2) (\<lambda>mail t3.
     and_then (transformPhone (cell r 3) rowIndex t3) (\<lambda>phone t4.
     and_then (transformCity (cell r 4) rowIndex t4) (\<lambda>cty t5.
     and_then (transformStateCode (cell r 5) rowIndex t5) (\<lambda>state t6.
     and_then (transformRegisteredAt today (cell r 6) rowIndex t6) (\<lambda>reg t7.
     and_then (transformStatus (cell r 7) rowIndex t7) (\<lambda>st t8.
       Inr (\<lparr>u_rowIndex = rowIndex, customer_id = cid, full_name = name, email = mail,
             phone_number = phone, city = cty, state_code = state, registered_at = reg,
             status = st, email_verified = False\<rparr>, t8)))))))))"

text \<open>\<^verbatim>\<open>data.forEach((row, index) => ...)\<close> with \<^verbatim>\<open>rowIndex = index + 2\<close>.\<close>

fun forEach_row ::
  "date \<Rightarrow> jsval list list \<Rightarrow> nat \<Rightarrow> customer list \<Rightarrow> transformer \<Rightarrow> customer list result" where
  "forEach_row today [] index transformed t = Inr (transformed, t)"
| "forEach_row today (r # rest) index transformed t =
     (case transformCustomer today r (index + 2) t of
        Inl e \<Rightarrow> Inl e
      | Inr (c, t') \<Rightarrow> forEach_row today rest (index + 1) (transformed @ [c]) t')"

definition transformCustomers :: "date \<Rightarrow> jsval list list \<Rightarrow> transformer \<Rightarrow> customer list result" where
  "transformCustomers today data t =
     (case forEach_row today data 0 [] (info ''Transforming customer data...'' t) of
        Inl e \<Rightarrow> Inl e
      | Inr (transformed, t1) \<Rightarrow>
          (let t2 = success (''Transformed '' @ show_nat (length transformed) @
                      '' customer records'') t1;
               t3 = t2\<lparr>logger := updateStats_transformed (length transformed) (logger t2)\<rparr>
           in Inr (transformed, t3)))"

section \<open>Deduplication\<close>

text \<open>\<^verbatim>\<open>config.etl\<close>; the command line can switch both flags off.\<close>

record etl_config =
  validateBeforeLoad :: bool
  deduplicateData :: bool

text \<open>\<^verbatim>\<open>const key = customer.email || customer.customer_id\<close>\<close>

definition dedup_key :: "customer \<Rightarrow> jsval" where
  "dedup_key c = js_or (email c) (customer_id c)"

text \<open>The locals of \<^verbatim>\<open>deduplicateCustomers\<close>: the map \<^verbatim>\<open>seen\<close> and the two arrays.\<close>

record dedup_state =
  seen :: "jsval \<rightharpoonup> nat"
  duplicates :: "dup_entry list"
  unique :: "customer list"
  tr :: transformer

definition dedup_step :: "dedup_state \<Rightarrow> customer \<Rightarrow> dedup_state" where
  "dedup_step s c =
     (let k = dedup_key c
      in if \<not> truthy k
         then s\<lparr>unique := unique s @ [c],
                tr := warn (''Row '' @ show_nat (u_rowIndex c) @
                        '': Cannot deduplicate, missing key fields'') (tr s)\<rparr>
         else (case seen s k of
                 Some first \<Rightarrow>
                   s\<lparr>duplicates := duplicates s @
                        [\<lparr>dup_row = u_rowIndex c, duplicateOf = first, key = k\<rparr>],
                     tr := (tr s)\<lparr>logger := updateStats_skipped (logger (tr s))\<rparr>\<rparr>
               | None \<Rightarrow>
                   s\<lparr>seen := (seen s)(k \<mapsto> u_rowIndex c), unique := unique s @ [c]\<rparr>))"

definition dedup_loop :: "customer list \<Rightarrow> transformer \<Rightarrow> dedup_state" where
  "dedup_loop customers t =
     foldl dedup_step \<lparr>seen = Map.empty, duplicates = [], unique = [], tr = t\<rparr> customers"

definition deduplicateCustomers ::
  "etl_config \<Rightarrow> customer list \<Rightarrow> transformer \<Rightarrow> customer list \<times> transformer" where
  "deduplicateCustomers config customers t =
     (if \<not> deduplicateData config then (customers, t)
      else (let s = dedup_loop customers (info ''Deduplicating customers...'' t);
                t1 = (if length (duplicates s) > 0
                      then warn_data (''Found '' @ show_nat (length (duplicates s)) @
                             '' duplicate customer(s)'') (Duplicates (take 5 (duplicates s))) (tr s)
                      else tr s);
                t2 = success (show_nat (length (unique s)) @
                       '' unique customers after deduplication'') t1
            in (unique s, t2)))"

section \<open>Validation\<close>

text \<open>\<^verbatim>\<open>{ ...record, _errors: recordErrors }\<close>\<close>

record 'r rejected =
  record_of :: 'r
  errors_of :: "verror list"

text \<open>\<^verbatim>\<open>this.validationErrors.filter(e => e.row === record._rowIndex)\<close>\<close>

definition recordErrors :: "transformer \<Rightarrow> 'a indexed_scheme \<Rightarrow> verror list" where
  "recordErrors t r = filter (\<lambda>e. row e = u_rowIndex r) (validationErrors t)"

record 'r verdicts =
  valid :: "'r list"
  invalid :: "'r rejected list"

definition validate_step ::
  "'a indexed_scheme verdicts \<times> transformer \<Rightarrow> 'a indexed_scheme \<Rightarrow>
   'a indexed_scheme verdicts \<times> transformer" where
  "validate_step acc r =
     (case acc of (vs, t) \<Rightarrow>
        if length (recordErrors t r) > 0
        then (vs\<lparr>invalid := invalid vs @ [\<lparr>record_of = r, errors_of = recordErrors t r\<rparr>]\<rparr>,
              t\<lparr>logger := updateStats_skipped (logger t)\<rparr>)
        else (vs\<lparr>valid := valid vs @ [r]\<rparr>, t))"

definition validate ::
  "'a indexed_scheme list \<Rightarrow> transformer \<Rightarrow> 'a indexed_scheme verdicts \<times> transformer" where
  "validate data t =
     (case foldl validate_step (\<lparr>valid = [], invalid = []\<rparr>,
             info ''Validating transformed data...'' t) data of
        (vs, t1) \<Rightarrow>
          (let t2 = (if length (invalid vs) > 0
                     then warn_data (show_nat (length (invalid vs)) @
                            '' record(s) failed validation'')
                            (Sample (map (\<lambda>r. (u_rowIndex (record_of r), errors_of r))
                               (take 3 (invalid vs)))) t1
                     else t1);
               t3 = success (show_nat (length (valid vs)) @ '' record(s) passed validation'') t2
           in (vs, t3)))"

section \<open>The transform phase\<close>

text \<open>
  \<^verbatim>\<open>transform(extractedData)\<close> for the customers sheet: reset the error list, transform,
  deduplicate, and validate when the configuration asks for it.
\<close>

definition transform ::
  "etl_config \<Rightarrow> date \<Rightarrow> jsval list list \<Rightarrow> transformer \<Rightarrow> customer verdicts result" where
  "transform config today data t =
     (let t0 = (info ''Starting data transformation...'' t)\<lparr>validationErrors := []\<rparr>
      in case transformCustomers today data t0 of
           Inl e \<Rightarrow> Inl e
         | Inr (customers, t1) \<Rightarrow>
             (case deduplicateCustomers config customers t1 of
                (customers', t2) \<Rightarrow>
                  (case (if validateBeforeLoad config then validate customers' t2
                         else (\<lparr>valid = customers', invalid = []\<rparr>, t2)) of
                     (vs, t3) \<Rightarrow> Inr (vs, success ''Data transformation complete'' t3))))"

section \<open>Sample records\<close>

text \<open>A transformed customer with the given row, identifier and e-mail, for the examples.\<close>

definition customer_with :: "nat \<Rightarrow> jsval \<Rightarrow> jsval \<Rightarrow> customer" where
  "customer_with r cid mail =
     \<lparr>u_rowIndex = r, customer_id = cid, full_name = JStr ''Name'', email = mail,
      phone_number = JNull, city = JNull, state_code = JNull,
      registered_at = JStr ''2024-01-15'', status = JStr ''Active'', email_verified = False\<rparr>"

text \<open>The configuration as \<^verbatim>\<open>etl/config.js\<close> ships it.\<close>

definition default_config :: etl_config where
  "default_config = \<lparr>validateBeforeLoad = True, deduplicateData = True\<rparr>"

text \<open>What a phone number looks like once normalized: nothing, ten digits, or three digits,
  a dash and four digits.\<close>

definition phone_shape :: "jsval \<Rightarrow> bool" where
  "phone_shape out =
     (case out of
        JNull \<Rightarrow> True
      | JStr p \<Rightarrow>
          (length p = 10 \<and> list_all is_digit p) \<or>
          (length p = 8 \<and> list_all is_digit (take 3 p) \<and> p ! 3 = CHR ''-'' \<and>
           list_all is_digit (drop 4 p))
      | _ \<Rightarrow> False)"

text \<open>A cell as the spreadsheet delivers it: a string or nothing.\<close>

fun string_or_null :: "jsval \<Rightarrow> bool" where
  "string_or_null JNull = True"
| "string_or_null (JStr s) = True"
| "string_or_null (JNum n) = False"
| "string_or_null (JObj n) = False"






section \<open>Basic facts about strings\<close>

lemma trim_Nil_iff: "trim s = [] \<longleftrightarrow> (\<forall>c \<in> set s. is_space c)"
proof
  assume "trim s = []"
  then have a: "\<forall>c \<in> set (dropWhile is_space s). is_space c"
    by (simp add: trim_def)
  show "\<forall>c \<in> set s. is_space c"
  proof (cases "dropWhile is_space s")
    case Nil
    then show ?thesis by simp
  next
    case (Cons x xs)
    then have "\<not> is_space x" using hd_dropWhile [of is_space s] by auto
    with a Cons show ?thesis by simp
  qed
next
  assume "\<forall>c \<in> set s. is_space c"
  then show "trim s = []" by (auto simp: trim_def dest: set_dropWhileD)
qed


lemma alnum_not_space: "is_alnum c \<Longrightarrow> \<not> is_space c"
  by (auto simp: is_alnum_def is_alpha_def is_upper_def is_lower_def is_digit_def is_space_def)

lemma guard_empty_alnum: "filter is_alnum v \<noteq> [] \<Longrightarrow> guard_empty (JStr v) = Text v"
proof -
  assume "filter is_alnum v \<noteq> []"
  then obtain c where "c \<in> set v" "is_alnum c"
    by (auto simp: filter_empty_conv)
  then have "\<not> (\<forall>c \<in> set v. is_space c)" using alnum_not_space by blast
  then show ?thesis by (simp add: trim_Nil_iff)
qed

lemma digits_not_startsWith:
  "all_digits s \<Longrightarrow> \<not> is_digit c \<Longrightarrow> \<not> startsWith s (c # p)"
  by (cases s) (auto simp: all_digits_def startsWith_def)

lemma letters_not_digits: "\<not> is_digit CHR ''C''" "\<not> is_digit CHR ''O''"
  by (simp_all add: is_digit_def)

section \<open>Identifiers made of digits\<close>

text \<open>
  Claim C10. A raw identifier that leaves a non-empty string of digits once everything but
  letters and digits is removed (and the rest is put in upper case) is accepted by both
  identifier normalizers: \<^verbatim>\<open>transformCustomerId\<close> returns \<^verbatim>\<open>C\<close> followed by those digits,
  \<^verbatim>\<open>transformOrderId\<close> returns \<^verbatim>\<open>ORD\<close> followed by them, and neither records a
  validation error or logs anything: the transformer is returned as it was.
\<close>

theorem identifier_digits_accepted:
  assumes "all_digits (clean_id v)"
  shows "transformCustomerId (JStr v) rowIndex t = Inr (JStr (''C'' @ clean_id v), t) \<and>
         transformOrderId (JStr v) rowIndex t = Inr (JStr (''ORD'' @ clean_id v), t)"
proof -
  from assms have "filter is_alnum v \<noteq> []"
    by (auto simp: all_digits_def clean_id_def toUpperCase_def)
  then have g: "guard_empty (JStr v) = Text v" by (rule guard_empty_alnum)
  have c: "\<not> startsWith (clean_id v) ''C''" and o: "\<not> startsWith (clean_id v) ''ORD''"
    using assms letters_not_digits by (auto dest: digits_not_startsWith)
  have rc: "re_customer_id (''C'' @ clean_id v)" and ro: "re_order_id (''ORD'' @ clean_id v)"
    using assms by (simp_all add: re_customer_id_def re_order_id_def startsWith_def)
  show ?thesis
    using g c o rc ro by (simp add: transformCustomerId_def transformOrderId_def Let_def)
qed

theorem identifier_digits_accepted_witness:
  "all_digits (clean_id ''123'') \<and>
   transformCustomerId (JStr ''123'') 2 init = Inr (JStr ''C123'', init) \<and>
   transformOrderId (JStr ''7-7'') 2 init = Inr (JStr ''ORD77'', init)"
proof -
  have a: "all_digits (clean_id ''123'')" by code_simp
  have b: "all_digits (clean_id ''7-7'')" by code_simp
  have c: "clean_id ''123'' = ''123''" by code_simp
  have d: "clean_id ''7-7'' = ''77''" by code_simp
  show ?thesis
    using a identifier_digits_accepted [OF a, of 2 init]
      identifier_digits_accepted [OF b, of 2 init] c d
    by simp
qed

section \<open>Validation verdicts\<close>

lemma foldl_validate_step:
  "foldl validate_step (vs0, t0) data = (vs, t1) \<Longrightarrow>
     valid vs = valid vs0 @ filter (\<lambda>r. recordErrors t0 r = []) data \<and>
     invalid vs = invalid vs0 @
       map (\<lambda>r. \<lparr>record_of = r, errors_of = recordErrors t0 r\<rparr>)
         (filter (\<lambda>r. recordErrors t0 r \<noteq> []) data) \<and>
     validationErrors t1 = validationErrors t0"
proof (induction data arbitrary: vs0 t0)
  case Nil
  then show ?case by simp
next
  case (Cons r rest)
  show ?case
  proof (cases "recordErrors t0 r = []")
    case True
    then have "validate_step (vs0, t0) r = (vs0\<lparr>valid := valid vs0 @ [r]\<rparr>, t0)"
      by (simp add: validate_step_def)
    with Cons.prems
    have "foldl validate_step (vs0\<lparr>valid := valid vs0 @ [r]\<rparr>, t0) rest = (vs, t1)"
      by simp
    from Cons.IH [OF this] True show ?thesis by simp
  next
    case False
    let ?t = "t0\<lparr>logger := updateStats_skipped (logger t0)\<rparr>"
    let ?vs = "vs0\<lparr>invalid := invalid vs0 @
                 [\<lparr>record_of = r, errors_of = recordErrors t0 r\<rparr>]\<rparr>"
    have e: "\<And>x. recordErrors ?t x = recordErrors t0 x"
      by (simp add: recordErrors_def)
    from False have "validate_step (vs0, t0) r = (?vs, ?t)"
      by (simp add: validate_step_def)
    with Cons.prems have "foldl validate_step (?vs, ?t) rest = (vs, t1)"
      by simp
    from Cons.IH [OF this] False show ?thesis by (simp add: e)
  qed
qed

text \<open>
  Claim C1. \<^verbatim>\<open>validate\<close> puts a record in \<^verbatim>\<open>invalid\<close> exactly when some validation
  error was recorded for its row, and in \<^verbatim>\<open>valid\<close> exactly when its list of errors is
  empty. Both lists keep the input order, a rejected record carries its errors, no record
  is in both lists, and together the two lists hold every input record once.
\<close>

theorem validate_verdicts:
  "valid (fst (validate data t)) = filter (\<lambda>r. recordErrors t r = []) data \<and>
   invalid (fst (validate data t)) =
     map (\<lambda>r. \<lparr>record_of = r, errors_of = recordErrors t r\<rparr>)
       (filter (\<lambda>r. recordErrors t r \<noteq> []) data) \<and>
   (\<forall>r \<in> set data.
      (r \<in> set (map record_of (invalid (fst (validate data t)))) \<longleftrightarrow>
         (\<exists>e \<in> set (validationErrors t). row e = u_rowIndex r)) \<and>
      (r \<in> set (valid (fst (validate data t))) \<longleftrightarrow> recordErrors t r = [])) \<and>
   set (valid (fst (validate data t))) \<inter>
     set (map record_of (invalid (fst (validate data t)))) = {} \<and>
   mset (valid (fst (validate data t))) +
     mset (map record_of (invalid (fst (validate data t)))) = mset data"
proof -
  let ?t0 = "info ''Validating transformed data...'' t"
  obtain vs t1 where f: "foldl validate_step (\<lparr>valid = [], invalid = []\<rparr>, ?t0) data = (vs, t1)"
    by (cases "foldl validate_step (\<lparr>valid = [], invalid = []\<rparr>, ?t0) data") auto
  have e: "\<And>x. recordErrors ?t0 x = recordErrors t x"
    by (simp add: recordErrors_def info_def)
  have fst_v: "fst (validate data t) = vs"
    using f by (simp add: validate_def Let_def)
  from foldl_validate_step [OF f]
  have v: "valid vs = filter (\<lambda>r. recordErrors t r = []) data"
    and i: "invalid vs = map (\<lambda>r. \<lparr>record_of = r, errors_of = recordErrors t r\<rparr>)
       (filter (\<lambda>r. recordErrors t r \<noteq> []) data)"
    by (simp_all add: e)
  have m: "map record_of (invalid vs) = filter (\<lambda>r. recordErrors t r \<noteq> []) data"
    by (simp add: i o_def)
  have ex: "\<And>r. (recordErrors t r \<noteq> []) =
      (\<exists>e \<in> set (validationErrors t). row e = u_rowIndex r)"
    by (auto simp: recordErrors_def filter_empty_conv)
  have ms: "mset (valid vs) + mset (map record_of (invalid vs)) = mset data"
    unfolding v m by (induction data) auto
  show ?thesis
    unfolding fst_v using v i m ms ex by auto
qed

theorem validate_verdicts_witness:
  "valid (fst (validate [\<lparr>u_rowIndex = 2\<rparr>, \<lparr>u_rowIndex = 3\<rparr>]
      (push_error 3 ''email'' JNull ''Email is required'' init))) = [\<lparr>u_rowIndex = 2\<rparr>] \<and>
   map record_of (invalid (fst (validate [\<lparr>u_rowIndex = 2\<rparr>, \<lparr>u_rowIndex = 3\<rparr>]
      (push_error 3 ''email'' JNull ''Email is required'' init)))) = [\<lparr>u_rowIndex = 3\<rparr>]"
  using validate_verdicts [of "[\<lparr>u_rowIndex = 2\<rparr>, \<lparr>u_rowIndex = 3\<rparr>]"
      "push_error 3 ''email'' JNull ''Email is required'' init"]
  by (simp add: recordErrors_def push_error_def init_def)

section \<open>Deduplication: the key and the first occurrence\<close>

lemma dedup_key_email: "dedup_key c = (if truthy (email c) then email c else customer_id c)"
  by (simp add: dedup_key_def js_or_def)

lemma dedup_pair_same:
  assumes "truthy (dedup_key a)" "dedup_key b = dedup_key a"
  shows "unique (dedup_loop [a, b] t) = [a]"
  using assms by (simp add: dedup_loop_def dedup_step_def Let_def)

lemma dedup_pair_diff:
  assumes "dedup_key b \<noteq> dedup_key a"
  shows "unique (dedup_loop [a, b] t) = [a, b]"
  using assms by (simp add: dedup_loop_def dedup_step_def Let_def)

lemma dedup_three:
  assumes "truthy (dedup_key a)" "dedup_key b = dedup_key a" "dedup_key c \<noteq> dedup_key a"
  shows "unique (dedup_loop [a, b, c] t) = [a, c] \<and>
         duplicates (dedup_loop [a, b, c] t) =
           [\<lparr>dup_row = u_rowIndex b, duplicateOf = u_rowIndex a, key = dedup_key a\<rparr>]"
  using assms by (simp add: dedup_loop_def dedup_step_def Let_def)

lemma fst_deduplicateCustomers:
  "deduplicateData config \<Longrightarrow>
   fst (deduplicateCustomers config cs t) =
     unique (dedup_loop cs (info ''Deduplicating customers...'' t))"
  by (simp add: deduplicateCustomers_def Let_def)

lemma show_nat_1: "show_nat (Suc 0) = ''1''"
  by code_simp

lemma entries_warn_data:
  "entries (logger (warn_data m d t)) = entries (logger t) @ [(Warn, m, d)]"
  by (simp add: warn_data_def logger_warn_def log_entry_def Let_def)

lemma entries_success:
  "entries (logger (success m t)) = entries (logger t) @ [(Success, m, NoData)]"
  by (simp add: success_def logger_success_def log_entry_def)

text \<open>
  Claim C8. With deduplication switched on, when \<open>A\<close> and \<open>B\<close> derive the same key
  \<open>k1\<close> and \<open>C\<close> does not derive \<open>k1\<close>, the customers \<open>[A, B, C]\<close> are reduced to
  \<open>[A, C]\<close>, and the array \<^verbatim>\<open>duplicates\<close> holds exactly one entry: the row of \<open>B\<close>, the
  row of \<open>A\<close> as \<^verbatim>\<open>duplicateOf\<close>, and the key \<open>k1\<close>. That entry is what the warning
  about duplicates logs.
\<close>

theorem deduplication_first_wins:
  assumes "deduplicateData config"
    and "truthy k1" and "dedup_key A = k1" and "dedup_key B = k1" and "dedup_key C \<noteq> k1"
  shows "fst (deduplicateCustomers config [A, B, C] t) = [A, C] \<and>
         duplicates (dedup_loop [A, B, C] (info ''Deduplicating customers...'' t)) =
           [\<lparr>dup_row = u_rowIndex B, duplicateOf = u_rowIndex A, key = k1\<rparr>] \<and>
         (Warn, ''Found 1 duplicate customer(s)'',
            Duplicates [\<lparr>dup_row = u_rowIndex B, duplicateOf = u_rowIndex A, key = k1\<rparr>])
           \<in> set (entries (logger (snd (deduplicateCustomers config [A, B, C] t))))"
proof -
  let ?t = "info ''Deduplicating customers...'' t"
  have d: "unique (dedup_loop [A, B, C] ?t) = [A, C] \<and>
         duplicates (dedup_loop [A, B, C] ?t) =
           [\<lparr>dup_row = u_rowIndex B, duplicateOf = u_rowIndex A, key = k1\<rparr>]"
    using dedup_three [of A B C ?t] assms by simp
  then show ?thesis
    using assms(1)
    by (simp add: deduplicateCustomers_def Let_def entries_warn_data entries_success show_nat_1)
qed

theorem deduplication_first_wins_witness:
  "fst (deduplicateCustomers default_config
     [customer_with 2 (JStr ''C001'') (JStr ''j@e.com''),
      customer_with 3 JNull (JStr ''j@e.com''),
      customer_with 4 (JStr ''C002'') (JStr ''k@e.com'')] init) =
     [customer_with 2 (JStr ''C001'') (JStr ''j@e.com''),
      customer_with 4 (JStr ''C002'') (JStr ''k@e.com'')] \<and>
   duplicates (dedup_loop
     [customer_with 2 (JStr ''C001'') (JStr ''j@e.com''),
      customer_with 3 JNull (JStr ''j@e.com''),
      customer_with 4 (JStr ''C002'') (JStr ''k@e.com'')]
     (info ''Deduplicating customers...'' init)) =
     [\<lparr>dup_row = 3, duplicateOf = 2, key = JStr ''j@e.com''\<rparr>]"
  using deduplication_first_wins [of "default_config"
      "JStr ''j@e.com''" "customer_with 2 (JStr ''C001'') (JStr ''j@e.com'')"
      "customer_with 3 JNull (JStr ''j@e.com'')"
      "customer_with 4 (JStr ''C002'') (JStr ''k@e.com'')" init]
  by (simp add: dedup_key_def js_or_def customer_with_def default_config_def)

text \<open>
  Claim C3 says the key is the identifier whenever there is one. Two customers with the same
  identifier \<^verbatim>\<open>C001\<close> and different e-mails are both kept: the key of the first is
  its e-mail, not its identifier.
\<close>

theorem dedup_key_identifier_first_counterexample:
  "customer_id (customer_with 3 (JStr ''C001'') (JStr ''b@x.co'')) =
     customer_id (customer_with 2 (JStr ''C001'') (JStr ''a@x.co'')) \<and>
   truthy (customer_id (customer_with 2 (JStr ''C001'') (JStr ''a@x.co''))) \<and>
   dedup_key (customer_with 2 (JStr ''C001'') (JStr ''a@x.co'')) = JStr ''a@x.co'' \<and>
   fst (deduplicateCustomers default_config
     [customer_with 2 (JStr ''C001'') (JStr ''a@x.co''),
      customer_with 3 (JStr ''C001'') (JStr ''b@x.co'')] init) =
     [customer_with 2 (JStr ''C001'') (JStr ''a@x.co''),
      customer_with 3 (JStr ''C001'') (JStr ''b@x.co'')]"
  by (simp add: deduplicateCustomers_def dedup_loop_def dedup_step_def dedup_key_def js_or_def
      customer_with_def default_config_def Let_def)

text \<open>
  Claim C3, as the code has it. The key is the normalized e-mail whenever the record has one,
  and the customer identifier only when the e-mail is missing. So, with deduplication
  switched on: two records with the same e-mail are one entity whatever their identifiers;
  two records with different e-mails are both kept, whatever their identifiers; and two
  records without e-mail are one entity when they have the same identifier.
\<close>

theorem dedup_key_prefers_email:
  "dedup_key c = (if truthy (email c) then email c else customer_id c) \<and>
   (deduplicateData config \<longrightarrow> truthy (email a) \<longrightarrow> email b = email a \<longrightarrow>
      fst (deduplicateCustomers config [a, b] t) = [a]) \<and>
   (deduplicateData config \<longrightarrow> truthy (email a) \<longrightarrow> truthy (email b) \<longrightarrow>
      email b \<noteq> email a \<longrightarrow> fst (deduplicateCustomers config [a, b] t) = [a, b]) \<and>
   (deduplicateData config \<longrightarrow> \<not> truthy (email a) \<longrightarrow> \<not> truthy (email b) \<longrightarrow>
      truthy (customer_id a) \<longrightarrow> customer_id b = customer_id a \<longrightarrow>
      fst (deduplicateCustomers config [a, b] t) = [a])"
  by (simp add: fst_deduplicateCustomers dedup_pair_same dedup_pair_diff dedup_key_email)

theorem dedup_key_prefers_email_witness:
  "fst (deduplicateCustomers default_config
     [customer_with 2 (JStr ''C001'') (JStr ''a@x.co''),
      customer_with 3 (JStr ''C002'') (JStr ''a@x.co'')] init) =
     [customer_with 2 (JStr ''C001'') (JStr ''a@x.co'')] \<and>
   fst (deduplicateCustomers default_config
     [customer_with 2 (JStr ''C001'') (JStr ''a@x.co''),
      customer_with 3 (JStr ''C001'') (JStr ''b@x.co'')] init) =
     [customer_with 2 (JStr ''C001'') (JStr ''a@x.co''),
      customer_with 3 (JStr ''C001'') (JStr ''b@x.co'')] \<and>
   fst (deduplicateCustomers default_config
     [customer_with 2 (JStr ''C001'') JNull,
      customer_with 3 (JStr ''C001'') JNull] init) =
     [customer_with 2 (JStr ''C001'') JNull]"
  using
    dedup_key_prefers_email [of "customer_with 2 (JStr ''C001'') (JStr ''a@x.co'')"
      "default_config"
      "customer_with 2 (JStr ''C001'') (JStr ''a@x.co'')"
      "customer_with 3 (JStr ''C002'') (JStr ''a@x.co'')" init]
    dedup_key_prefers_email [of "customer_with 2 (JStr ''C001'') (JStr ''a@x.co'')"
      "default_config"
      "customer_with 2 (JStr ''C001'') (JStr ''a@x.co'')"
      "customer_with 3 (JStr ''C001'') (JStr ''b@x.co'')" init]
    dedup_key_prefers_email [of "customer_with 2 (JStr ''C001'') JNull"
      "default_config"
      "customer_with 2 (JStr ''C001'') JNull"
      "customer_with 3 (JStr ''C001'') JNull" init]
  by (simp add: customer_with_def default_config_def)

section \<open>Phone numbers\<close>

lemma validationErrors_warn: "validationErrors (warn m t) = validationErrors t"
  by (simp add: warn_def)

lemma warned_warn: "warned (warn m t) = warned t @ [m]"
  by (simp add: warned_def warn_def logger_warn_def log_entry_def Let_def)

lemma guard_empty_Text: "trim s \<noteq> [] \<Longrightarrow> guard_empty (JStr s) = Text s"
  by simp


lemma transformPhone_Text:
  "trim s \<noteq> [] \<Longrightarrow> transformPhone (JStr s) r t =
     (if length (filter is_digit s) = 7
      then Inr (JStr (take 3 (filter is_digit s) @ ''-'' @ drop 3 (filter is_digit s)), t)
      else if length (filter is_digit s) = 10 then Inr (JStr (filter is_digit s), t)
      else Inr (JNull, warn (''Row '' @ show_nat r @ '': Invalid phone format: '' @ dq @ s @ dq) t))"
  by (simp add: transformPhone_def Let_def)

lemma transformPhone_shape:
  "transformPhone v r t = Inr (out, t') \<Longrightarrow> phone_shape out"
proof (cases "guard_empty v")
  case Throws
  then show "transformPhone v r t = Inr (out, t') \<Longrightarrow> phone_shape out"
    by (simp add: transformPhone_def)
next
  case Empty
  then show "transformPhone v r t = Inr (out, t') \<Longrightarrow> phone_shape out"
    by (auto simp: transformPhone_def phone_shape_def)
next
  case (Text s)
  let ?d = "filter is_digit s"
  have d: "list_all is_digit ?d" by (simp add: list_all_iff)
  have t3: "list_all is_digit (take 3 ?d)" using d by (auto simp: list_all_iff dest: in_set_takeD)
  have d3: "list_all is_digit (drop 3 ?d)" using d by (auto simp: list_all_iff dest: in_set_dropD)
  assume "transformPhone v r t = Inr (out, t')"
  with Text d t3 d3 show "phone_shape out"
    by (auto simp: transformPhone_def phone_shape_def Let_def nth_append split: if_splits)
qed

lemma phone_literals:
  "trim ''(555) 0106'' \<noteq> []" "filter is_digit ''(555) 0106'' = ''5550106''"
  "trim ''5550107'' \<noteq> []" "filter is_digit ''5550107'' = ''5550107''"
  "trim ''+1-555-0118'' \<noteq> []" "filter is_digit ''+1-555-0118'' = ''15550118''"
  "trim ''555-CALL'' \<noteq> []" "filter is_digit ''555-CALL'' = ''555''"
  by code_simp+

lemma phone_table:
  "transformPhone (JStr ''(555) 0106'') r t = Inr (JStr ''555-0106'', t)"
  "transformPhone (JStr ''5550107'') r t = Inr (JStr ''555-0107'', t)"
  "transformPhone (JStr ''+1-555-0118'') r t = Inr (JNull,
     warn (''Row '' @ show_nat r @ '': Invalid phone format: '' @ dq @ ''+1-555-0118'' @ dq) t)"
  "transformPhone (JStr ''555-CALL'') r t = Inr (JNull,
     warn (''Row '' @ show_nat r @ '': Invalid phone format: '' @ dq @ ''555-CALL'' @ dq) t)"
  unfolding transformPhone_Text [OF phone_literals(1)] transformPhone_Text [OF phone_literals(3)]
    transformPhone_Text [OF phone_literals(5)] transformPhone_Text [OF phone_literals(7)]
    phone_literals(2,4,6,8)
  by simp_all

text \<open>
  Claim C5, as the code has it. \<^verbatim>\<open>transformPhone\<close> returns \<^verbatim>\<open>null\<close> without a warning for
  an empty cell. For any other text it keeps the digits: seven digits are returned as
  \<^verbatim>\<open>XXX-XXXX\<close>, ten digits as they are, and any other count gives \<^verbatim>\<open>null\<close> and a warning;
  no country code is dropped. Every output is \<^verbatim>\<open>null\<close>, ten digits, or three digits, a dash
  and four digits. So \<^verbatim>\<open>(555) 0106\<close> gives \<^verbatim>\<open>555-0106\<close>, \<^verbatim>\<open>5550107\<close> gives \<^verbatim>\<open>555-0107\<close>,
  and \<^verbatim>\<open>+1-555-0118\<close> (eight digits) and \<^verbatim>\<open>555-CALL\<close> give \<^verbatim>\<open>null\<close> and a warning.
\<close>

theorem transformPhone_seven_or_ten:
  "(guard_empty v = Empty \<longrightarrow> transformPhone v r t = Inr (JNull, t)) \<and>
   (ascii s \<longrightarrow> trim s \<noteq> [] \<longrightarrow> transformPhone (JStr s) r t =
     (if length (filter is_digit s) = 7
      then Inr (JStr (take 3 (filter is_digit s) @ ''-'' @ drop 3 (filter is_digit s)), t)
      else if length (filter is_digit s) = 10 then Inr (JStr (filter is_digit s), t)
      else Inr (JNull,
        warn (''Row '' @ show_nat r @ '': Invalid phone format: '' @ dq @ s @ dq) t))) \<and>
   (\<forall>out t'. transformPhone v r t = Inr (out, t') \<longrightarrow> phone_shape out) \<and>
   transformPhone (JStr ''(555) 0106'') r t = Inr (JStr ''555-0106'', t) \<and>
   transformPhone (JStr ''5550107'') r t = Inr (JStr ''555-0107'', t) \<and>
   transformPhone (JStr ''+1-555-0118'') r t = Inr (JNull,
     warn (''Row '' @ show_nat r @ '': Invalid phone format: '' @ dq @ ''+1-555-0118'' @ dq) t) \<and>
   transformPhone (JStr ''555-CALL'') r t = Inr (JNull,
     warn (''Row '' @ show_nat r @ '': Invalid phone format: '' @ dq @ ''555-CALL'' @ dq) t)"
proof -
  have a: "guard_empty v = Empty \<longrightarrow> transformPhone v r t = Inr (JNull, t)"
    by (simp add: transformPhone_def)
  have b: "\<forall>out t'. transformPhone v r t = Inr (out, t') \<longrightarrow> phone_shape out"
    using transformPhone_shape by blast
  have c: "trim s \<noteq> [] \<longrightarrow> transformPhone (JStr s) r t =
     (if length (filter is_digit s) = 7
      then Inr (JStr (take 3 (filter is_digit s) @ ''-'' @ drop 3 (filter is_digit s)), t)
      else if length (filter is_digit s) = 10 then Inr (JStr (filter is_digit s), t)
      else Inr (JNull,
        warn (''Row '' @ show_nat r @ '': Invalid phone format: '' @ dq @ s @ dq) t))"
    using transformPhone_Text by blast
  from a b c phone_table [of r t] show ?thesis by blast
qed

text \<open>
  Claim C5 says that \<^verbatim>\<open>(555) 0106\<close> becomes \<^verbatim>\<open>5550106\<close>, that \<^verbatim>\<open>+1-555-0118\<close> becomes
  \<^verbatim>\<open>5550118\<close>, and that an output has exactly ten digits. The code returns \<^verbatim>\<open>555-0106\<close>,
  eight characters with a dash, for the first, and \<^verbatim>\<open>null\<close> for the second.
\<close>

theorem transformPhone_counterexample:
  "transformPhone (JStr ''(555) 0106'') 2 init = Inr (JStr ''555-0106'', init) \<and>
   JStr ''555-0106'' \<noteq> JStr ''5550106'' \<and>
   length ''555-0106'' \<noteq> 10 \<and>
   fst (projr (transformPhone (JStr ''+1-555-0118'') 2 init)) = JNull"
  by (simp add: phone_table)

theorem transformPhone_seven_or_ten_witness:
  "guard_empty (JStr ''  '') = Empty \<and> transformPhone (JStr ''  '') 2 init = Inr (JNull, init) \<and>
   ascii ''555 010 9999'' \<and> trim ''555 010 9999'' \<noteq> [] \<and>
   transformPhone (JStr ''555 010 9999'') 2 init = Inr (JStr ''5550109999'', init) \<and>
   phone_shape (JStr ''5550109999'')"
proof -
  have g: "guard_empty (JStr ''  '') = Empty" by code_simp
  have a: "ascii ''555 010 9999''" by code_simp
  have n: "trim ''555 010 9999'' \<noteq> []" by code_simp
  have d: "filter is_digit ''555 010 9999'' = ''5550109999''" by code_simp
  have p: "transformPhone (JStr ''555 010 9999'') 2 init = Inr (JStr ''5550109999'', init)"
    using transformPhone_seven_or_ten [of "JStr ''555 010 9999''" 2 init "''555 010 9999''"] a n
    unfolding d by simp
  have e: "transformPhone (JStr ''  '') 2 init = Inr (JNull, init)"
    using transformPhone_seven_or_ten [of "JStr ''  ''" 2 init "''555 010 9999''"] g by blast
  have s: "phone_shape (JStr ''5550109999'')"
    using transformPhone_seven_or_ten [of "JStr ''555 010 9999''" 2 init "''555 010 9999''"] p
    by blast
  from g a n p e s show ?thesis by blast
qed

section \<open>Quantities\<close>






lemma recordErrors_warn: "recordErrors (warn m t) x = recordErrors t x"
  by (simp add: recordErrors_def validationErrors_warn)




section \<open>Customer status\<close>

lemma not_upper_toLowerChar: "\<not> is_upper (toLowerChar c)"
  by (auto simp: toLowerChar_def is_upper_def)

lemma toLowerCase_no_upper: "c \<in> set (toLowerCase s) \<Longrightarrow> \<not> is_upper c"
  by (auto simp: toLowerCase_def not_upper_toLowerChar)

lemma toLowerCase_neq: "\<exists>c \<in> set x. is_upper c \<Longrightarrow> toLowerCase s \<noteq> x"
  using toLowerCase_no_upper by blast

lemma toLowerCase_not_inherited:
  "toLowerCase s \<noteq> ''__defineGetter__''" "toLowerCase s \<noteq> ''__defineSetter__''"
  "toLowerCase s \<noteq> ''hasOwnProperty''" "toLowerCase s \<noteq> ''__lookupGetter__''"
  "toLowerCase s \<noteq> ''__lookupSetter__''" "toLowerCase s \<noteq> ''isPrototypeOf''"
  "toLowerCase s \<noteq> ''propertyIsEnumerable''" "toLowerCase s \<noteq> ''toString''"
  "toLowerCase s \<noteq> ''valueOf''" "toLowerCase s \<noteq> ''toLocaleString''"
  by (rule toLowerCase_neq, simp add: is_upper_def)+

lemma lower_key_prototype:
  "toLowerCase s \<in> set object_prototype \<longleftrightarrow>
     toLowerCase s = ''constructor'' \<or> toLowerCase s = ''__proto__''"
  unfolding object_prototype_def by (simp add: toLowerCase_not_inherited)


lemma transformStatus_Text:
  "trim s \<noteq> [] \<Longrightarrow> transformStatus (JStr s) r t =
     (if truthy (js_get statusMap (toLowerCase (trim s)))
      then Inr (js_get statusMap (toLowerCase (trim s)), t)
      else Inr (JStr ''Active'', warn (''Row '' @ show_nat r @
             '': Unknown status '' @ dq @ s @ dq @ '', defaulting to Active'') t))"
  by (simp add: transformStatus_def Let_def)

lemma js_get_statusMap:
  "js_get statusMap k =
     (if k = ''active'' \<or> k = ''yes'' \<or> k = ''1'' then JStr ''Active''
      else if k = ''inactive'' \<or> k = ''no'' \<or> k = ''0'' then JStr ''Inactive''
      else if k = ''pending'' then JStr ''Pending''
      else if k \<in> set object_prototype then JObj k else JNull)"
  unfolding js_get_def statusMap_def by simp


lemma transformStatus_unknown:
  assumes "trim s \<noteq> []"
    and "toLowerCase (trim s) \<notin>
        {''active'', ''inactive'', ''pending'', ''yes'', ''no'', ''1'', ''0'',
         ''constructor'', ''__proto__''}"
  shows "transformStatus (JStr s) r t =
        Inr (JStr ''Active'', warn (''Row '' @ show_nat r @
               '': Unknown status '' @ dq @ s @ dq @ '', defaulting to Active'') t)"
proof -
  let ?k = "toLowerCase (trim s)"
  from assms(2) have k: "?k \<noteq> ''active''" "?k \<noteq> ''inactive''" "?k \<noteq> ''pending''"
    "?k \<noteq> ''yes''" "?k \<noteq> ''no''" "?k \<noteq> ''1''" "?k \<noteq> ''0''"
    "?k \<noteq> ''constructor''" "?k \<noteq> ''__proto__''"
    by blast+
  then have "?k \<notin> set object_prototype"
    using lower_key_prototype [of "trim s"] by blast
  with k have "js_get statusMap ?k = JNull"
    unfolding js_get_statusMap by presburger
  then show ?thesis
    unfolding transformStatus_Text [OF assms(1)] by simp
qed

lemma transformStatus_known:
  assumes "trim s \<noteq> []"
  shows "toLowerCase (trim s) \<in> {''active'', ''yes'', ''1''} \<Longrightarrow>
           transformStatus (JStr s) r t = Inr (JStr ''Active'', t)"
    and "toLowerCase (trim s) \<in> {''inactive'', ''no'', ''0''} \<Longrightarrow>
           transformStatus (JStr s) r t = Inr (JStr ''Inactive'', t)"
    and "toLowerCase (trim s) = ''pending'' \<Longrightarrow>
           transformStatus (JStr s) r t = Inr (JStr ''Pending'', t)"
proof -
  let ?k = "toLowerCase (trim s)"
  { assume "?k \<in> {''active'', ''yes'', ''1''}"
    then have "?k = ''active'' \<or> ?k = ''yes'' \<or> ?k = ''1''" by blast
    then have "js_get statusMap ?k = JStr ''Active''"
      unfolding js_get_statusMap by presburger
    then show "transformStatus (JStr s) r t = Inr (JStr ''Active'', t)"
      unfolding transformStatus_Text [OF assms(1)] by simp }
  { assume "?k \<in> {''inactive'', ''no'', ''0''}"
    then have d: "?k = ''inactive'' \<or> ?k = ''no'' \<or> ?k = ''0''" by blast
    then have "\<not> (?k = ''active'' \<or> ?k = ''yes'' \<or> ?k = ''1'')" by auto
    with d have "js_get statusMap ?k = JStr ''Inactive''"
      unfolding js_get_statusMap by presburger
    then show "transformStatus (JStr s) r t = Inr (JStr ''Inactive'', t)"
      unfolding transformStatus_Text [OF assms(1)] by simp }
  { assume d: "?k = ''pending''"
    have "js_get statusMap ''pending'' = JStr ''Pending''"
      by (simp add: js_get_def statusMap_def)
    with d show "transformStatus (JStr s) r t = Inr (JStr ''Pending'', t)"
      unfolding transformStatus_Text [OF assms(1)] by simp }
qed


text \<open>
  Claim C7, as the code has it. An empty cell gives \<^verbatim>\<open>Active\<close> and no warning. The
  status map has seven keys: besides \<^verbatim>\<open>active\<close>, \<^verbatim>\<open>inactive\<close> and \<^verbatim>\<open>pending\<close> also
  \<^verbatim>\<open>yes\<close> and \<^verbatim>\<open>1\<close> (Active), \<^verbatim>\<open>no\<close> and \<^verbatim>\<open>0\<close> (Inactive). A value whose trimmed,
  lower-case form is one of the seven is mapped without a warning. Every other value gives
  \<^verbatim>\<open>Active\<close> and a warning, unless its lower-case form names a property that the map
  inherits (\<^verbatim>\<open>constructor\<close>, \<^verbatim>\<open>__proto__\<close>), about which nothing is said here.
\<close>

theorem transformStatus_default:
  "(guard_empty v = Empty \<longrightarrow> transformStatus v r t = Inr (JStr ''Active'', t)) \<and>
   (ascii s \<longrightarrow> trim s \<noteq> [] \<longrightarrow>
      toLowerCase (trim s) \<notin>
        {''active'', ''inactive'', ''pending'', ''yes'', ''no'', ''1'', ''0'',
         ''constructor'', ''__proto__''} \<longrightarrow>
      transformStatus (JStr s) r t =
        Inr (JStr ''Active'', warn (''Row '' @ show_nat r @
               '': Unknown status '' @ dq @ s @ dq @ '', defaulting to Active'') t)) \<and>
   (ascii s \<longrightarrow> trim s \<noteq> [] \<longrightarrow> toLowerCase (trim s) \<in> {''active'', ''yes'', ''1''} \<longrightarrow>
      transformStatus (JStr s) r t = Inr (JStr ''Active'', t)) \<and>
   (ascii s \<longrightarrow> trim s \<noteq> [] \<longrightarrow> toLowerCase (trim s) \<in> {''inactive'', ''no'', ''0''} \<longrightarrow>
      transformStatus (JStr s) r t = Inr (JStr ''Inactive'', t)) \<and>
   (ascii s \<longrightarrow> trim s \<noteq> [] \<longrightarrow> toLowerCase (trim s) = ''pending'' \<longrightarrow>
      transformStatus (JStr s) r t = Inr (JStr ''Pending'', t))"
proof -
  have a: "guard_empty v = Empty \<longrightarrow> transformStatus v r t = Inr (JStr ''Active'', t)"
    by (simp add: transformStatus_def)
  from a transformStatus_unknown [of s r t] transformStatus_known [of s r t]
  show ?thesis by blast
qed

lemma status_literals:
  "trim ''no'' \<noteq> []" "toLowerCase (trim ''no'') = ''no''"
  "trim ''Unknown'' \<noteq> []" "toLowerCase (trim ''Unknown'') = ''unknown''"
  "trim '' ACTIVE '' \<noteq> []" "toLowerCase (trim '' ACTIVE '') = ''active''"
  "ascii ''no''" "ascii ''Unknown''" "ascii '' ACTIVE ''" "guard_empty JNull = Empty"
  "trim ''Pending'' \<noteq> []" "toLowerCase (trim ''Pending'') = ''pending''" "ascii ''Pending''"
  by code_simp+

text \<open>
  Claim C7 says every status other than Active, Inactive and Pending (in any case) gives
  \<^verbatim>\<open>Active\<close> and a warning. The status \<^verbatim>\<open>no\<close> gives \<^verbatim>\<open>Inactive\<close> and no warning.
\<close>

theorem transformStatus_counterexample:
  "transformStatus (JStr ''no'') 2 init = Inr (JStr ''Inactive'', init) \<and>
   toLowerCase (trim ''no'') \<notin> {''active'', ''inactive'', ''pending''}"
proof -
  have "toLowerCase (trim ''no'') \<in> {''inactive'', ''no'', ''0''}"
    unfolding status_literals(2) by simp
  from transformStatus_known(2) [OF status_literals(1) this]
  show ?thesis unfolding status_literals(2) by simp
qed

theorem transformStatus_default_witness:
  "guard_empty JNull = Empty \<and> transformStatus JNull 2 init = Inr (JStr ''Active'', init) \<and>
   ascii ''Unknown'' \<and> trim ''Unknown'' \<noteq> [] \<and> toLowerCase (trim ''Unknown'') = ''unknown'' \<and>
   transformStatus (JStr ''Unknown'') 2 init =
     Inr (JStr ''Active'', warn (''Row '' @ show_nat 2 @
            '': Unknown status '' @ dq @ ''Unknown'' @ dq @ '', defaulting to Active'') init) \<and>
   ascii '' ACTIVE '' \<and> trim '' ACTIVE '' \<noteq> [] \<and> toLowerCase (trim '' ACTIVE '') = ''active'' \<and>
   transformStatus (JStr '' ACTIVE '') 2 init = Inr (JStr ''Active'', init) \<and>
   ascii ''no'' \<and> trim ''no'' \<noteq> [] \<and> toLowerCase (trim ''no'') = ''no'' \<and>
   transformStatus (JStr ''no'') 2 init = Inr (JStr ''Inactive'', init) \<and>
   ascii ''Pending'' \<and> trim ''Pending'' \<noteq> [] \<and> toLowerCase (trim ''Pending'') = ''pending'' \<and>
   transformStatus (JStr ''Pending'') 2 init = Inr (JStr ''Pending'', init)"
proof -
  note l = status_literals
  have a: "transformStatus JNull 2 init = Inr (JStr ''Active'', init)"
    using transformStatus_default [of JNull 2 init "''no''"] l(10) by blast
  have u: "''unknown'' \<notin> {''active'', ''inactive'', ''pending'', ''yes'', ''no'', ''1'', ''0'',
         ''constructor'', ''__proto__''}" by simp
  have b: "transformStatus (JStr ''Unknown'') 2 init =
     Inr (JStr ''Active'', warn (''Row '' @ show_nat 2 @
            '': Unknown status '' @ dq @ ''Unknown'' @ dq @ '', defaulting to Active'') init)"
    using transformStatus_default [of JNull 2 init "''Unknown''"] l(3,8) u
    unfolding l(4) by blast
  have ac: "''active'' \<in> {''active'', ''yes'', ''1''}" by simp
  have c: "transformStatus (JStr '' ACTIVE '') 2 init = Inr (JStr ''Active'', init)"
    using transformStatus_default [of JNull 2 init "'' ACTIVE ''"] l(5,9) ac
    unfolding l(6) by blast
  have no: "''no'' \<in> {''inactive'', ''no'', ''0''}" by simp
  have d: "transformStatus (JStr ''no'') 2 init = Inr (JStr ''Inactive'', init)"
    using transformStatus_default [of JNull 2 init "''no''"] l(1,7) no
    unfolding l(2) by blast
  have e: "transformStatus (JStr ''Pending'') 2 init = Inr (JStr ''Pending'', init)"
    using transformStatus_default [of JNull 2 init "''Pending''"] l(11,13)
    unfolding l(12) by simp
  show ?thesis by (intro conjI) fact+
qed

section \<open>The date table\<close>









section \<open>One customer for each row\<close>

lemma guard_not_Throws: "string_or_null v \<Longrightarrow> guard_empty v \<noteq> Throws"
  by (cases v) auto

lemma cell_string_or_null: "list_all string_or_null r \<Longrightarrow> string_or_null (cell r i)"
  by (simp add: cell_def list_all_length)

lemma transformCustomerId_total:
  "string_or_null v \<Longrightarrow> \<exists>out t'. transformCustomerId v r t = Inr (out, t')"
  using guard_not_Throws [of v]
  by (cases "guard_empty v") (simp_all add: transformCustomerId_def Let_def)

lemma transformFullName_total:
  "string_or_null v \<Longrightarrow> \<exists>out t'. transformFullName v r t = Inr (out, t')"
  using guard_not_Throws [of v]
  by (cases "guard_empty v") (simp_all add: transformFullName_def Let_def)

lemma transformEmail_total:
  "string_or_null v \<Longrightarrow> \<exists>out t'. transformEmail v r t = Inr (out, t')"
  using guard_not_Throws [of v]
  by (cases "guard_empty v") (simp_all add: transformEmail_def Let_def)

lemma transformPhone_total:
  "string_or_null v \<Longrightarrow> \<exists>out t'. transformPhone v r t = Inr (out, t')"
  using guard_not_Throws [of v]
  by (cases "guard_empty v") (simp_all add: transformPhone_def Let_def)

lemma transformCity_total:
  "string_or_null v \<Longrightarrow> \<exists>out t'. transformCity v r t = Inr (out, t')"
  using guard_not_Throws [of v]
  by (cases "guard_empty v") (simp_all add: transformCity_def)

lemma transformStateCode_total:
  "string_or_null v \<Longrightarrow> \<exists>out t'. transformStateCode v r t = Inr (out, t')"
  using guard_not_Throws [of v]
  by (cases "guard_empty v") (simp_all add: transformStateCode_def Let_def)

lemma transformRegisteredAt_total:
  "string_or_null v \<Longrightarrow> \<exists>out t'. transformRegisteredAt today v r t = Inr (out, t')"
  using guard_not_Throws [of v]
  by (cases "guard_empty v")
    (simp_all add: transformRegisteredAt_def split: option.splits)

lemma transformStatus_total:
  "string_or_null v \<Longrightarrow> \<exists>out t'. transformStatus v r t = Inr (out, t')"
  using guard_not_Throws [of v]
  by (cases "guard_empty v") (simp_all add: transformStatus_def Let_def)

lemma and_then_Inr: "m = Inr (a, t) \<Longrightarrow> and_then m f = f a t"
  by (simp add: and_then_def)

lemma transformCustomer_total:
  assumes "list_all string_or_null r"
  shows "\<exists>c t'. transformCustomer today r rowIndex t = Inr (c, t') \<and> u_rowIndex c = rowIndex"
proof -
  note c = cell_string_or_null [OF assms]
  obtain a1 t1 where 1: "transformCustomerId (cell r 0) rowIndex t = Inr (a1, t1)"
    using transformCustomerId_total [OF c] by blast
  obtain a2 t2 where 2: "transformFullName (cell r 1) rowIndex t1 = Inr (a2, t2)"
    using transformFullName_total [OF c] by blast
  obtain a3 t3 where 3: "transformEmail (cell r 2) rowIndex t2 = Inr (a3, t3)"
    using transformEmail_total [OF c] by blast
  obtain a4 t4 where 4: "transformPhone (cell r 3) rowIndex t3 = Inr (a4, t4)"
    using transformPhone_total [OF c] by blast
  obtain a5 t5 where 5: "transformCity (cell r 4) rowIndex t4 = Inr (a5, t5)"
    using transformCity_total [OF c] by blast
  obtain a6 t6 where 6: "transformStateCode (cell r 5) rowIndex t5 = Inr (a6, t6)"
    using transformStateCode_total [OF c] by blast
  obtain a7 t7 where 7: "transformRegisteredAt today (cell r 6) rowIndex t6 = Inr (a7, t7)"
    using transformRegisteredAt_total [OF c] by blast
  obtain a8 t8 where 8: "transformStatus (cell r 7) rowIndex t7 = Inr (a8, t8)"
    using transformStatus_total [OF c] by blast
  show ?thesis
    unfolding transformCustomer_def and_then_Inr [OF 1] and_then_Inr [OF 2] and_then_Inr [OF 3]
      and_then_Inr [OF 4] and_then_Inr [OF 5] and_then_Inr [OF 6] and_then_Inr [OF 7]
      and_then_Inr [OF 8]
    by simp
qed

lemma forEach_row_total:
  "list_all (list_all string_or_null) data \<Longrightarrow>
   \<exists>cs t'. forEach_row today data i acc t = Inr (acc @ cs, t') \<and> length cs = length data \<and>
     map u_rowIndex cs = map (\<lambda>k. k + 2) [i ..< i + length data]"
proof (induction data arbitrary: i acc t)
  case Nil
  then show ?case by simp
next
  case (Cons r rest)
  then have r: "list_all string_or_null r" and rest: "list_all (list_all string_or_null) rest"
    by simp_all
  obtain c t1 where c: "transformCustomer today r (i + 2) t = Inr (c, t1)" "u_rowIndex c = i + 2"
    using transformCustomer_total [OF r] by blast
  obtain cs t' where cs: "forEach_row today rest (i + 1) (acc @ [c]) t1 = Inr ((acc @ [c]) @ cs, t')"
    "length cs = length rest" "map u_rowIndex cs = map (\<lambda>k. k + 2) [i + 1 ..< i + 1 + length rest]"
    using Cons.IH [OF rest] by blast
  have "[i ..< i + length (r # rest)] = i # [i + 1 ..< i + 1 + length rest]"
    using upt_conv_Cons [of i "i + length (r # rest)"] by simp
  with c cs show ?case
    by (intro exI [of _ "c # cs"] exI [of _ t']) simp
qed

text \<open>
  Claim C2. On rows whose cells are strings or \<^verbatim>\<open>null\<close> (a missing cell counts as
  \<^verbatim>\<open>null\<close>, so a row may be empty), \<^verbatim>\<open>transformCustomers\<close> does not throw and returns one
  customer for each row, in order: the customer of the row at index \<open>k\<close> carries the row
  number \<open>k + 2\<close>.
\<close>

theorem transformCustomers_total:
  assumes "list_all (list_all string_or_null) data"
  shows "\<exists>cs t'. transformCustomers today data t = Inr (cs, t') \<and> length cs = length data \<and>
           map u_rowIndex cs = map (\<lambda>k. k + 2) [0 ..< length data]"
proof -
  obtain cs t' where
    "forEach_row today data 0 [] (info ''Transforming customer data...'' t) = Inr ([] @ cs, t')"
    "length cs = length data" "map u_rowIndex cs = map (\<lambda>k. k + 2) [0 ..< 0 + length data]"
    using forEach_row_total [OF assms] by blast
  then show ?thesis
    by (simp add: transformCustomers_def Let_def)
qed

theorem transformCustomers_total_witness:
  "list_all (list_all string_or_null) [[], [JNull, JNull], [JStr ''c001'', JStr ''John'']] \<and>
   (\<exists>cs t'. transformCustomers (2026, 11, 3) [[], [JNull, JNull], [JStr ''c001'', JStr ''John'']] init =
      Inr (cs, t') \<and> length cs = 3 \<and> map u_rowIndex cs = [2, 3, 4])"
proof -
  have a: "list_all (list_all string_or_null) [[], [JNull, JNull], [JStr ''c001'', JStr ''John'']]"
    by simp
  have b: "map (\<lambda>k. k + 2) [0 ..< length [[], [JNull, JNull], [JStr ''c001'', JStr ''John'']]] =
    [2, 3, 4::nat]" by (simp add: upt_rec)
  show ?thesis
    using transformCustomers_total [OF a, of "(2026, 11, 3)" init] a unfolding b
    by (simp add: numeral_3_eq_3)
qed

text \<open>The restriction to strings matters: a cell holding a number other than 0 makes
  \<^verbatim>\<open>value.trim()\<close> throw.\<close>

lemma transformCustomers_throws:
  "transformCustomers today [[JNum 5]] t = Inl TypeError"
  by (simp add: transformCustomers_def transformCustomer_def and_then_def cell_def
      transformCustomerId_def)


text \<open>A row without values still gives a record; its name and e-mail are rejected.\<close>

lemma empty_row_rejected:
  "\<exists>c t'. transformCustomer today [] r t = Inr (c, t') \<and>
     full_name c = JNull \<and> email c = JNull \<and>
     validationErrors t' = validationErrors t @
       [\<lparr>row = r, field = ''full_name'', val = JNull, error = ''Name is required''\<rparr>,
        \<lparr>row = r, field = ''email'', val = JNull, error = ''Email is required''\<rparr>]"
  by (simp add: transformCustomer_def and_then_def cell_def transformCustomerId_def
      transformFullName_def transformEmail_def transformPhone_def transformCity_def
      transformStateCode_def transformRegisteredAt_def transformStatus_def
      warn_def push_error_def)

section \<open>Idempotence\<close>

subsection \<open>Trimming and case\<close>

lemma last_dropWhile: "dropWhile P xs \<noteq> [] \<Longrightarrow> last (dropWhile P xs) = last xs"
  by (induction xs) auto

lemma trim_hd_last:
  assumes "trim s \<noteq> []"
  shows "\<not> is_space (hd (trim s))" and "\<not> is_space (last (trim s))"
proof -
  define a where "a = dropWhile is_space s"
  define b where "b = dropWhile is_space (rev a)"
  have t: "trim s = rev b" by (simp add: trim_def a_def b_def)
  with assms have b: "b \<noteq> []" by simp
  then have ra: "rev a \<noteq> []" unfolding b_def by auto
  then have a: "a \<noteq> []" by simp
  have hb: "\<not> is_space (hd b)" using b unfolding b_def by (rule hd_dropWhile)
  have ha: "\<not> is_space (hd a)" using a unfolding a_def by (rule hd_dropWhile)
  show "\<not> is_space (last (trim s))" using hb b by (simp add: t last_rev)
  have "hd (trim s) = last b" using b by (simp add: t hd_rev)
  also have "\<dots> = last (rev a)" using b unfolding b_def by (rule last_dropWhile)
  also have "\<dots> = hd a" using a by (simp add: last_rev)
  finally show "\<not> is_space (hd (trim s))" using ha by simp
qed

lemma trim_fixed:
  assumes "s \<noteq> []" "\<not> is_space (hd s)" "\<not> is_space (last s)"
  shows "trim s = s"
proof -
  from assms have a: "dropWhile is_space s = s" by (cases s) auto
  from assms have "rev s \<noteq> []" "\<not> is_space (hd (rev s))" by (simp_all add: hd_rev)
  then have "dropWhile is_space (rev s) = rev s" by (cases "rev s") auto
  with a show ?thesis by (simp add: trim_def)
qed

lemma trim_trim: "trim (trim s) = trim s"
proof (cases "trim s = []")
  case True
  have "trim [] = []" by (simp add: trim_def)
  with True show ?thesis by simp
next
  case False
  then show ?thesis using trim_hd_last [OF False] by (intro trim_fixed)
qed

lemma is_space_toLowerChar: "is_space (toLowerChar c) = is_space c"
  by (auto simp: toLowerChar_def is_space_def is_upper_def)

lemma is_space_toUpperChar: "is_space (toUpperChar c) = is_space c"
  by (auto simp: toUpperChar_def is_space_def is_lower_def)

lemma trim_map:
  assumes "\<And>c. is_space (f c) = is_space c"
  shows "trim (map f s) = map f (trim s)"
proof -
  have "is_space \<circ> f = is_space" using assms by (auto simp: fun_eq_iff)
  then show ?thesis by (simp add: trim_def dropWhile_map rev_map)
qed





lemma trim_toLowerCase: "trim (toLowerCase s) = toLowerCase (trim s)"
  unfolding toLowerCase_def by (rule trim_map) (rule is_space_toLowerChar)

lemma trim_toUpperCase: "trim (toUpperCase s) = toUpperCase (trim s)"
  unfolding toUpperCase_def by (rule trim_map) (rule is_space_toUpperChar)



subsection \<open>Identifiers\<close>








subsection \<open>Names, cities, product names\<close>












subsection \<open>E-mail, phone\<close>








subsection \<open>State, status\<close>

















subsection \<open>Dates\<close>
































end
